theory Spec2Isabelle
  imports Complex_Main
begin

section \<open>FrankenAgent: a shallow embedding of agents/frankenagent/frankenagent.py\<close>

text \<open>
  The agent is a Python class driven by \<open>notifyChange\<close>. Its fields become a record that
  every handler takes and returns; an exception becomes an \<open>Inl\<close> outcome; the two
  calls into Python's \<open>random\<close> module become finite distributions, lists of outcomes
  with rational weights. Utilities are Python \<open>Decimal\<close>s, finite decimal fractions, and
  are rationals here; the one Decimal operation of the source, a subtraction, rounds to
  the 28 significant digits of the default context. Progress and the time threshold are
  binary doubles that \<open>accept\<close> only compares, so they are exact as reals there;
  \<open>score_bid\<close> computes with doubles, and each of its operations rounds.
\<close>

subsection \<open>Exceptions and random outcomes\<close>

datatype error = AttributeError | IndexError | ValueError | OverflowError | ZeroDivisionError

type_synonym 'a rand = "((error + 'a) \<times> rat) list"

definition return_rand :: "'a \<Rightarrow> 'a rand" where
  "return_rand x = [(Inr x, 1)]"

definition raise_rand :: "error \<Rightarrow> 'a rand" where
  "raise_rand e = [(Inl e, 1)]"

definition bind_rand :: "'a rand \<Rightarrow> ('a \<Rightarrow> 'b rand) \<Rightarrow> 'b rand" where
  "bind_rand d f =
     concat (map (\<lambda>(r, p). case r of
                                Inl e \<Rightarrow> [(Inl e, p)]
                              | Inr x \<Rightarrow> map (\<lambda>(y, q). (y, p * q)) (f x)) d)"

definition uniform_rand :: "'a list \<Rightarrow> 'a rand" where
  "uniform_rand xs = map (\<lambda>x. (Inr x, 1 / of_nat (length xs))) xs"

text \<open>The probability of an outcome, the set of possible outcomes, the total weight.\<close>

definition prob :: "'a rand \<Rightarrow> error + 'a \<Rightarrow> rat" where
  "prob d r = sum_list (map snd (filter (\<lambda>yp. fst yp = r) d))"

definition outcomes :: "'a rand \<Rightarrow> (error + 'a) set" where
  "outcomes d = fst ` set d"

definition mass :: "'a rand \<Rightarrow> rat" where
  "mass d = sum_list (map snd d)"

text \<open>
  Both functions of \<open>random\<close> start with \<open>len\<close> of the sequence, which raises
  OverflowError when the length does not fit a machine index, that is from \<open>2^63\<close> on.

  \<open>random.choice(seq)\<close> raises IndexError on an empty sequence and otherwise returns
  \<open>seq[i]\<close> for a position \<open>i\<close> drawn uniformly from \<open>range(len(seq))\<close>.
\<close>

definition random_choice :: "'a list \<Rightarrow> 'a rand" where
  "random_choice xs =
     (if 2 ^ 63 \<le> int (length xs) then raise_rand OverflowError
      else if xs = [] then raise_rand IndexError
      else uniform_rand xs)"

text \<open>
  \<open>random.sample(population, k)\<close> raises ValueError when \<open>k\<close> exceeds the population and
  otherwise returns \<open>k\<close> elements taken at distinct positions, one position after the
  other, each uniform over the positions that are left: every ordered selection is
  equally likely.
\<close>

fun selections :: "'a list \<Rightarrow> nat \<Rightarrow> 'a list list" where
  "selections xs 0 = [[]]"
| "selections xs (Suc k) =
     concat (map (\<lambda>i. map ((#) (xs ! i)) (selections (take i xs @ drop (Suc i) xs) k))
                 [0..<length xs])"

definition random_sample :: "'a list \<Rightarrow> nat \<Rightarrow> 'a list rand" where
  "random_sample population k =
     (if 2 ^ 63 \<le> int (length population) then raise_rand OverflowError
      else if length population < k then raise_rand ValueError
      else uniform_rand (selections population k))"

subsection \<open>Decimal arithmetic\<close>

text \<open>
  The default Decimal context has precision 28 and rounds half to even. \<open>adjusted x\<close> is
  the exponent of the leading digit of a non-zero \<open>x\<close>; \<open>decimal_round\<close> keeps 28
  significant digits; \<open>decimal_sub\<close> is the \<open>-\<close> of two Decimals.
\<close>

definition round_half_even :: "rat \<Rightarrow> int" where
  "round_half_even x =
     (let f = \<lfloor>x\<rfloor>; r = x - of_int f
      in if r < 1 / 2 then f else if 1 / 2 < r then f + 1 else if even f then f else f + 1)"

function ilog10 :: "int \<Rightarrow> int" where
  "ilog10 n = (if n < 10 then 0 else 1 + ilog10 (n div 10))"
  by pat_completeness auto
termination
  by (relation "measure nat") auto

definition adjusted :: "rat \<Rightarrow> int" where
  "adjusted x =
     (let (p, q) = quotient_of \<bar>x\<bar>;
          a = ilog10 p - ilog10 q
      in if 10 powi a \<le> \<bar>x\<bar> then a else a - 1)"

definition decimal_round :: "rat \<Rightarrow> rat" where
  "decimal_round x =
     (if x = 0 then 0
      else let e = adjusted x - 27
           in of_int (round_half_even (x / 10 powi e)) * 10 powi e)"

definition decimal_sub :: "rat \<Rightarrow> rat \<Rightarrow> rat" where
  "decimal_sub x y = decimal_round (x - y)"

text \<open>
  \<open>Decimal(0.9)\<close> converts the double written \<open>0.9\<close> exactly: the double is
  \<open>8106479329266893 / 2^53\<close>, in decimal
  \<open>0.9000000000000000222044604925031308084726333618164062 5\<close>.
\<close>

definition Decimal_0_9 :: rat where
  "Decimal_0_9 = 8106479329266893 / 9007199254740992"

text \<open>The default \<open>T=0.95\<close> of \<open>accept\<close> is the double \<open>4278419646001971 / 2^52\<close>.\<close>

definition T_default :: real where
  "T_default = 4278419646001971 / 4503599627370496"

subsection \<open>Double arithmetic\<close>














subsection \<open>Bids, domains, profiles, actions and messages\<close>

text \<open>
  These are the values of the geniusweb library the agent handles. A bid assigns a value
  to each issue; a domain lists the values of each issue; \<open>AllBidsList(domain)\<close> is the
  list of all bids of the domain, with \<open>size()\<close> its length and \<open>get(i)\<close> its \<open>i\<close>-th
  element (the order of the enumeration is the library's and nothing below depends on it);
  \<open>random.choice\<close> reads it through \<open>len\<close> and indexing, which are \<open>size()\<close> and \<open>get(i)\<close>.
  A profile gives the own utility of a bid, a Decimal, and the domain.
\<close>

type_synonym party = string
type_synonym bid = "(string \<times> string) list"
type_synonym domain = "(string \<times> string list) list"

definition AllBidsList :: "domain \<Rightarrow> bid list" where
  "AllBidsList d = map (zip (map fst d)) (product_lists (map snd d))"

record utility_space =
  getUtility :: "bid \<Rightarrow> rat"
  getDomain :: domain

text \<open>
  An action names its actor. \<open>my_turn\<close> builds its actions from the fields \<open>self.me\<close> and
  \<open>self.last_received_bid\<close>, both of which start as None, so the actor and the bid of an
  Accept are nullable.
\<close>

datatype action =
    Offer "party option" bid
  | Accept "party option" "bid option"
  | EndNegotiation "party option"

fun getActor :: "action \<Rightarrow> party option" where
  "getActor (Offer a b) = a"
| "getActor (Accept a b) = a"
| "getActor (EndNegotiation a) = a"

fun is_Offer :: "action \<Rightarrow> bool" where
  "is_Offer (Offer a b) = True"
| "is_Offer (Accept a b) = False"
| "is_Offer (EndNegotiation a) = False"

record settings_msg =
  getID :: party
  getProgress :: "real \<Rightarrow> real"
  getParameters :: "string \<rightharpoonup> string"
  getProfile :: utility_space

datatype inform =
    Settings settings_msg
  | ActionDone action
  | YourTurn
  | Finished
  | OtherInform

subsection \<open>The opponent model\<close>

text \<open>
  Modelled from the spec: the class \<open>OpponentModel\<close> of \<open>utils/opponent_model.py\<close>, which
  the agent imports, is not among the sources. The spec gives its state as a mapping from
  issue to a mapping from value to observation count, empty at first, and \<open>update(bid)\<close>
  as incrementing, for each issue of the bid, the count of the value the bid assigns.
\<close>

type_synonym opponent_model = "string \<Rightarrow> string \<Rightarrow> nat"

definition OpponentModel :: "domain option \<Rightarrow> opponent_model" where
  "OpponentModel d = (\<lambda>issue v. 0)"

definition update :: "bid \<Rightarrow> opponent_model \<Rightarrow> opponent_model" where
  "update b m = fold (\<lambda>(issue, v) m. m(issue := (m issue)(v := Suc (m issue v)))) b m"

subsection \<open>The agent\<close>

text \<open>
  The fields of \<open>__init__\<close>. \<open>opponent_model\<close> is a reference: the index, in \<open>om_objects\<close>,
  of the OpponentModel object it points to; \<open>om_objects\<close> lists the OpponentModel objects
  constructed so far, in the order of their construction.
\<close>

record agent =
  domain :: "domain option"
  parameters :: "(string \<rightharpoonup> string) option"
  profile :: "utility_space option"
  progress :: "(real \<Rightarrow> real) option"
  me :: "party option"
  other :: "string option"
  settings :: "settings_msg option"
  storage_dir :: "string option"
  last_received_bid :: "bid option"
  opponent_model :: "nat option"
  om_objects :: "opponent_model list"

definition init_agent :: agent where
  "init_agent =
     \<lparr>domain = None, parameters = None, profile = None, progress = None, me = None,
      other = None, settings = None, storage_dir = None, last_received_bid = None,
      opponent_model = None, om_objects = []\<rparr>"

text \<open>\<open>opponent_action\<close>, lines 143-161.\<close>

definition opponent_action :: "action \<Rightarrow> agent \<Rightarrow> agent" where
  "opponent_action a st =
     (case a of
        Offer actor b \<Rightarrow>
          (let (r, objs) =
                 (case opponent_model st of
                    None \<Rightarrow> (length (om_objects st),
                             om_objects st @ [OpponentModel (domain st)])
                  | Some r \<Rightarrow> (r, om_objects st))
           in st\<lparr>opponent_model := Some r,
                 om_objects := objs[r := update b (objs ! r)],
                 last_received_bid := Some b\<rparr>)
      | Accept actor b \<Rightarrow> st
      | EndNegotiation actor \<Rightarrow> st)"

text \<open>
  \<open>accept\<close>, lines 199-210. \<open>t_ms\<close> is the clock reading \<open>time() * 1000\<close> that the method
  passes to the progress object. A field that is still None raises AttributeError when
  a method is called on it.
\<close>

definition accept :: "agent \<Rightarrow> real \<Rightarrow> bid \<Rightarrow> bid option \<Rightarrow> real \<Rightarrow> error + bool" where
  "accept st t_ms my_upcoming_bid opponent_offer T =
     (case opponent_offer of
        None \<Rightarrow> Inr False
      | Some ob \<Rightarrow>
          (case progress st of
             None \<Rightarrow> Inl AttributeError
           | Some pg \<Rightarrow>
               (case profile st of
                  None \<Rightarrow> Inl AttributeError
                | Some p \<Rightarrow>
                    Inr (getUtility p my_upcoming_bid < getUtility p ob \<or> T < pg t_ms))))"

text \<open>
  \<open>find_bid\<close>, lines 227-260. Line 228 asks the profile for the utility of
  \<open>self.last_received_bid\<close> before anything else; \<open>getUtility\<close> reads the values of the
  bid it is given, so on None it raises AttributeError. \<open>similar_bids\<close> is the loop of
  lines 244-253 over the sampled indices.
\<close>

definition similar_bids :: "utility_space \<Rightarrow> rat \<Rightarrow> bid list \<Rightarrow> nat list \<Rightarrow> bid list" where
  "similar_bids p previous_offer_utility all_bids random_indices =
     filter (\<lambda>b. decimal_sub previous_offer_utility Decimal_0_9 < getUtility p b)
            (map (\<lambda>index. all_bids ! index) random_indices)"

definition find_bid :: "agent \<Rightarrow> bid rand" where
  "find_bid st =
     (case profile st of
        None \<Rightarrow> raise_rand AttributeError
      | Some p \<Rightarrow>
          (case last_received_bid st of
             None \<Rightarrow> raise_rand AttributeError
           | Some lb \<Rightarrow>
               (let previous_offer_utility = getUtility p lb;
                    all_bids = AllBidsList (getDomain p);
                    num_bids = length all_bids
                in bind_rand (random_sample [0..<num_bids] (min num_bids 500))
                     (\<lambda>random_indices.
                        let similar_bids_with_concession =
                              similar_bids p previous_offer_utility all_bids random_indices
                        in if similar_bids_with_concession = []
                           then random_choice all_bids
                           else random_choice similar_bids_with_concession))))"

text \<open>\<open>my_turn\<close>, lines 164-180: the result is the action handed to \<open>send_action\<close>.\<close>

definition my_turn :: "real \<Rightarrow> agent \<Rightarrow> action rand" where
  "my_turn t_ms st =
     bind_rand (find_bid st)
       (\<lambda>bid. case accept st t_ms bid (last_received_bid st) T_default of
                 Inl e \<Rightarrow> raise_rand e
               | Inr a \<Rightarrow>
                   return_rand (if a then Accept (me st) (last_received_bid st)
                                else Offer (me st) bid))"


text \<open>
  \<open>notifyChange\<close>, lines 55-109: the new state and, for YourTurn, what \<open>my_turn\<close> sends.
  \<open>str(actor).rsplit("_", 1)[0]\<close> is the actor's name up to its last underscore.
  \<open>save_data\<close> writes a fixed note to a file and \<open>terminate\<close> closes the connection;
  neither touches a field.
\<close>

definition str_actor :: "party option \<Rightarrow> string" where
  "str_actor a = (case a of None \<Rightarrow> ''None'' | Some s \<Rightarrow> s)"

definition rsplit_head :: "string \<Rightarrow> string" where
  "rsplit_head s =
     (if CHR ''_'' \<in> set s then rev (tl (dropWhile (\<lambda>c. c \<noteq> CHR ''_'') (rev s))) else s)"

definition notifyChange :: "real \<Rightarrow> inform \<Rightarrow> agent \<Rightarrow> agent \<times> action rand option" where
  "notifyChange t_ms data st =
     (case data of
        Settings s \<Rightarrow>
          (st\<lparr>settings := Some s, me := Some (getID s), progress := Some (getProgress s),
              parameters := Some (getParameters s),
              storage_dir := getParameters s ''storage_dir'',
              profile := Some (getProfile s),
              domain := Some (getDomain (getProfile s))\<rparr>, None)
      | ActionDone a \<Rightarrow>
          (if getActor a \<noteq> me st
           then (opponent_action a (st\<lparr>other := Some (rsplit_head (str_actor (getActor a)))\<rparr>),
                 None)
           else (st, None))
      | YourTurn \<Rightarrow> (st, Some (my_turn t_ms st))
      | Finished \<Rightarrow> (st, None)
      | OtherInform \<Rightarrow> (st, None))"

text \<open>A session: the messages the agent receives, each with the clock reading at its arrival.\<close>

fun run :: "(real \<times> inform) list \<Rightarrow> agent \<Rightarrow> agent" where
  "run [] st = st"
| "run ((t_ms, data) # rest) st = run rest (fst (notifyChange t_ms data st))"

fun is_opponent_offer :: "agent \<Rightarrow> inform \<Rightarrow> bool" where
  "is_opponent_offer st (ActionDone (Offer actor b)) = (actor \<noteq> me st)"
| "is_opponent_offer st data = False"

fun offers_seen :: "(real \<times> inform) list \<Rightarrow> agent \<Rightarrow> nat" where
  "offers_seen [] st = 0"
| "offers_seen ((t_ms, data) # rest) st =
     (if is_opponent_offer st data then 1 else 0)
     + offers_seen rest (fst (notifyChange t_ms data st))"

text \<open>
  The opponent model is either not yet there, with no OpponentModel object constructed,
  or it is the first and only object constructed.
\<close>

definition model_inv :: "agent \<Rightarrow> bool" where
  "model_inv st \<longleftrightarrow>
     (opponent_model st = None \<and> om_objects st = [])
     \<or> (opponent_model st = Some 0 \<and> length (om_objects st) = 1)"

subsection \<open>A small session\<close>

text \<open>
  One issue with three values, so three bids, worth 1, 0.5 and 0.1 to the agent. The
  agent \<open>franken_1\<close> negotiates with \<open>opp_2\<close> over 8192 milliseconds, so that the
  progress at a whole millisecond is a double exactly.
\<close>

definition ex_low :: bid where
  "ex_low = [(''price'', ''low'')]"

definition ex_mid :: bid where
  "ex_mid = [(''price'', ''mid'')]"

definition ex_high :: bid where
  "ex_high = [(''price'', ''high'')]"

definition ex_domain :: domain where
  "ex_domain = [(''price'', [''low'', ''mid'', ''high''])]"

definition ex_utility :: "bid \<Rightarrow> rat" where
  "ex_utility b = (if b = ex_low then 1 else if b = ex_mid then 1 / 2 else 1 / 10)"

definition ex_profile :: utility_space where
  "ex_profile = \<lparr>getUtility = ex_utility, getDomain = ex_domain\<rparr>"

definition ex_settings :: settings_msg where
  "ex_settings =
     \<lparr>getID = ''franken_1'', getProgress = (\<lambda>t_ms. t_ms / 8192),
      getParameters = [''storage_dir'' \<mapsto> ''storage''], getProfile = ex_profile\<rparr>"

definition ex_opponent :: "party option" where
  "ex_opponent = Some ''opp_2''"



text \<open>The agent after the Settings message, and after a first offer of the opponent.\<close>

definition ex_started :: agent where
  "ex_started = run [(0, Settings ex_settings)] init_agent"

definition ex_offered :: "bid \<Rightarrow> agent" where
  "ex_offered b = run [(0, Settings ex_settings), (100, ActionDone (Offer ex_opponent b))] init_agent"

section \<open>Facts about distributions and samples\<close>

lemma prob_weighted:
  "prob (map (\<lambda>x. (Inr x, c)) xs) (Inr x) = of_nat (count_list xs x) * c"
  by (induction xs) (simp_all add: prob_def algebra_simps)

lemma prob_uniform:
  "prob (uniform_rand xs) (Inr x) = of_nat (count_list xs x) / of_nat (length xs)"
  by (simp add: uniform_rand_def prob_weighted)

lemma prob_uniform_error: "prob (uniform_rand xs) (Inl e) = 0"
  by (simp add: uniform_rand_def prob_def filter_map comp_def)

lemma outcomes_uniform: "outcomes (uniform_rand xs) = Inr ` set xs"
  by (auto simp: outcomes_def uniform_rand_def image_iff)

lemma mass_weighted: "mass (map (\<lambda>x. (Inr x, c)) xs) = of_nat (length xs) * c"
  by (induction xs) (simp_all add: mass_def algebra_simps)

lemma mass_uniform: "xs \<noteq> [] \<Longrightarrow> mass (uniform_rand xs) = 1"
  by (simp add: uniform_rand_def mass_weighted)

lemma remove_nth_set:
  assumes "distinct xs" and "i < length xs"
  shows "set (take i xs @ drop (Suc i) xs) = set xs - {xs ! i}"
    and "distinct (take i xs @ drop (Suc i) xs)"
proof -
  have xs: "xs = take i xs @ xs ! i # drop (Suc i) xs"
    using assms(2) by (simp add: id_take_nth_drop)
  have d: "distinct (take i xs @ xs ! i # drop (Suc i) xs)"
    using assms(1) xs by simp
  show "distinct (take i xs @ drop (Suc i) xs)"
    using d by simp
  have "set xs = set (take i xs @ xs ! i # drop (Suc i) xs)"
    using xs by simp
  then show "set (take i xs @ drop (Suc i) xs) = set xs - {xs ! i}"
    using d by auto
qed

lemma selections_length:
  "s \<in> set (selections xs k) \<Longrightarrow> length s = k"
  by (induction k arbitrary: xs s) auto

lemma selections_subset:
  "s \<in> set (selections xs k) \<Longrightarrow> set s \<subseteq> set xs"
proof (induction k arbitrary: xs s)
  case 0
  then show ?case by simp
next
  case (Suc k)
  then obtain i r where i: "i < length xs" and s: "s = xs ! i # r"
    and r: "r \<in> set (selections (take i xs @ drop (Suc i) xs) k)"
    by auto
  have "set r \<subseteq> set (take i xs @ drop (Suc i) xs)"
    using Suc.IH [OF r] .
  also have "\<dots> \<subseteq> set xs"
    using set_take_subset set_drop_subset by fastforce
  finally show ?case using i s by simp
qed

lemma selections_distinct:
  "distinct xs \<Longrightarrow> s \<in> set (selections xs k) \<Longrightarrow> distinct s"
proof (induction k arbitrary: xs s)
  case 0
  then show ?case by simp
next
  case (Suc k)
  from Suc.prems(2) obtain i r where i: "i < length xs" and s: "s = xs ! i # r"
    and r: "r \<in> set (selections (take i xs @ drop (Suc i) xs) k)"
    by auto
  have "distinct r"
    using Suc.IH [OF remove_nth_set(2) [OF Suc.prems(1) i] r] .
  moreover have "xs ! i \<notin> set r"
    using selections_subset [OF r] remove_nth_set(1) [OF Suc.prems(1) i] by auto
  ultimately show ?case using s by simp
qed

lemma selections_complete:
  "distinct xs \<Longrightarrow> length s = k \<Longrightarrow> distinct s \<Longrightarrow> set s \<subseteq> set xs
   \<Longrightarrow> s \<in> set (selections xs k)"
proof (induction k arbitrary: xs s)
  case 0
  then show ?case by simp
next
  case (Suc k)
  from Suc.prems(2) obtain a r where s: "s = a # r" by (cases s) auto
  with Suc.prems have "a \<in> set xs" by simp
  then obtain i where i: "i < length xs" and a: "xs ! i = a"
    by (auto simp: in_set_conv_nth)
  have "set r \<subseteq> set (take i xs @ drop (Suc i) xs)"
    using Suc.prems s a remove_nth_set(1) [OF Suc.prems(1) i] by auto
  then have "r \<in> set (selections (take i xs @ drop (Suc i) xs) k)"
    using Suc.IH [OF remove_nth_set(2) [OF Suc.prems(1) i]] Suc.prems s by simp
  then show ?case using i a s by auto
qed

lemma distinct_concat_map:
  "distinct js \<Longrightarrow> (\<And>i. i \<in> set js \<Longrightarrow> distinct (f i))
   \<Longrightarrow> (\<And>i j. i \<in> set js \<Longrightarrow> j \<in> set js \<Longrightarrow> i \<noteq> j \<Longrightarrow> set (f i) \<inter> set (f j) = {})
   \<Longrightarrow> distinct (concat (map f js))"
proof (induction js)
  case Nil
  then show ?case by simp
next
  case (Cons j js)
  have "distinct (concat (map f js))"
    using Cons by simp
  moreover have "distinct (f j)"
    using Cons.prems(2) by simp
  moreover have "set (f j) \<inter> set (f i) = {}" if "i \<in> set js" for i
    using Cons.prems(1) Cons.prems(3) [of j i] that by auto
  ultimately show ?case by auto
qed

lemma selections_distinct_list:
  "distinct xs \<Longrightarrow> distinct (selections xs k)"
proof (induction k arbitrary: xs)
  case 0
  then show ?case by simp
next
  case (Suc k)
  let ?f = "\<lambda>i. map ((#) (xs ! i)) (selections (take i xs @ drop (Suc i) xs) k)"
  have "distinct (concat (map ?f [0..<length xs]))"
  proof (rule distinct_concat_map)
    show "distinct [0..<length xs]" by simp
  next
    fix i assume "i \<in> set [0..<length xs]"
    then have i: "i < length xs" by simp
    have "distinct (selections (take i xs @ drop (Suc i) xs) k)"
      using Suc.IH [OF remove_nth_set(2) [OF Suc.prems i]] .
    then show "distinct (?f i)" by (simp add: distinct_map)
  next
    fix i j assume "i \<in> set [0..<length xs]" "j \<in> set [0..<length xs]" "i \<noteq> j"
    then have "xs ! i \<noteq> xs ! j"
      using Suc.prems by (simp add: nth_eq_iff_index_eq)
    then show "set (?f i) \<inter> set (?f j) = {}" by auto
  qed
  then show ?case by simp
qed

lemma selections_nonempty:
  "k \<le> length xs \<Longrightarrow> selections xs k \<noteq> []"
proof (induction k arbitrary: xs)
  case 0
  then show ?case by simp
next
  case (Suc k)
  from Suc.prems have pos: "0 < length xs" by (cases xs) simp_all
  have "k \<le> length (take 0 xs @ drop (Suc 0) xs)" using Suc.prems by simp
  then have "selections (take 0 xs @ drop (Suc 0) xs) k \<noteq> []" by (rule Suc.IH)
  then obtain r where r: "r \<in> set (selections (take 0 xs @ drop (Suc 0) xs) k)"
    by (meson last_in_set)
  have "xs ! 0 # r \<in> set (selections xs (Suc k))"
    apply simp
    apply (rule bexI [of _ 0])
    using r pos by simp_all
  then show ?case by (metis empty_iff empty_set)
qed

lemma count_list_distinct:
  "distinct xs \<Longrightarrow> x \<in> set xs \<Longrightarrow> count_list xs x = 1"
  by (induction xs) (auto simp: count_list_0_iff)

lemma outcomes_bind:
  "outcomes (bind_rand d f) =
     {Inl e |e. Inl e \<in> outcomes d} \<union> (\<Union>x\<in>{x. Inr x \<in> outcomes d}. outcomes (f x))"
proof (induction d)
  case Nil
  then show ?case by (simp add: outcomes_def bind_rand_def)
next
  case (Cons a d)
  obtain r p where a: "a = (r, p)" by (cases a)
  have tl: "outcomes (bind_rand (a # d) f) =
      outcomes (case r of Inl e \<Rightarrow> [(Inl e, p)] | Inr x \<Rightarrow> map (\<lambda>(y, q). (y, p * q)) (f x))
      \<union> outcomes (bind_rand d f)"
    by (simp add: outcomes_def bind_rand_def a image_Un)
  have hd: "outcomes (case r of Inl e \<Rightarrow> [(Inl e, p)] | Inr x \<Rightarrow> map (\<lambda>(y, q). (y, p * q)) (f x))
      = (case r of Inl e \<Rightarrow> {Inl e} | Inr x \<Rightarrow> outcomes (f x))"
    by (cases r) (force simp: outcomes_def image_iff split: prod.splits)+
  show ?case
    unfolding tl hd Cons.IH
    by (cases r) (auto simp: outcomes_def a)
qed

lemma bind_rand_cong:
  "(\<And>x. Inr x \<in> outcomes d \<Longrightarrow> f x = g x) \<Longrightarrow> bind_rand d f = bind_rand d g"
  unfolding bind_rand_def outcomes_def
  by (rule arg_cong [where f = concat], rule map_cong) (auto split: sum.splits, force)

lemma mass_scaled: "mass (map (\<lambda>(y, q). (y, p * q)) d) = p * mass d"
  by (induction d) (auto simp: mass_def algebra_simps)

lemma mass_bind:
  "(\<And>x. Inr x \<in> outcomes d \<Longrightarrow> mass (f x) = 1) \<Longrightarrow> mass (bind_rand d f) = mass d"
proof (induction d)
  case Nil
  then show ?case by (simp add: mass_def bind_rand_def)
next
  case (Cons a d)
  obtain r p where a: "a = (r, p)" by (cases a)
  have "mass (bind_rand d f) = mass d"
    using Cons by (simp add: outcomes_def)
  moreover have "mass (bind_rand (a # d) f) =
      mass (case r of Inl e \<Rightarrow> [(Inl e, p)] | Inr x \<Rightarrow> map (\<lambda>(y, q). (y, p * q)) (f x))
      + mass (bind_rand d f)"
    by (simp add: mass_def bind_rand_def a)
  moreover have "mass (case r of Inl e \<Rightarrow> [(Inl e, p)] | Inr x \<Rightarrow> map (\<lambda>(y, q). (y, p * q)) (f x)) = p"
  proof (cases r)
    case (Inl e)
    then show ?thesis by (simp add: mass_def)
  next
    case (Inr x)
    then have "mass (f x) = 1"
      using Cons.prems [of x] a by (simp add: outcomes_def)
    then show ?thesis using Inr by (simp add: mass_scaled)
  qed
  ultimately show ?case by (simp add: mass_def a)
qed

lemma outcomes_random_sample:
  assumes "distinct xs" and "k \<le> length xs" and "int (length xs) < 2 ^ 63"
  shows "Inr s \<in> outcomes (random_sample xs k) \<longleftrightarrow> length s = k \<and> distinct s \<and> set s \<subseteq> set xs"
proof -
  have "Inr s \<in> outcomes (random_sample xs k) \<longleftrightarrow> s \<in> set (selections xs k)"
    using assms(2,3) by (auto simp: random_sample_def outcomes_uniform)
  also have "\<dots> \<longleftrightarrow> length s = k \<and> distinct s \<and> set s \<subseteq> set xs"
    using selections_length [of s xs k] selections_subset [of s xs k]
      selections_distinct [OF assms(1), of s k] selections_complete [OF assms(1), of s k]
    by blast
  finally show ?thesis .
qed

lemma prob_random_sample:
  assumes "distinct xs" and "k \<le> length xs" and "int (length xs) < 2 ^ 63"
    and "length s = k" and "distinct s" and "set s \<subseteq> set xs"
  shows "prob (random_sample xs k) (Inr s) = 1 / of_nat (length (selections xs k))"
  using assms selections_complete [of xs s k] selections_distinct_list [of xs k]
  by (simp add: random_sample_def prob_uniform count_list_distinct)

lemma mass_random_sample:
  "k \<le> length xs \<Longrightarrow> int (length xs) < 2 ^ 63 \<Longrightarrow> mass (random_sample xs k) = 1"
  by (simp add: random_sample_def mass_uniform selections_nonempty)

lemma mass_random_choice:
  "xs \<noteq> [] \<Longrightarrow> int (length xs) < 2 ^ 63 \<Longrightarrow> mass (random_choice xs) = 1"
  by (simp add: random_choice_def mass_uniform)

lemma outcomes_random_choice:
  "xs \<noteq> [] \<Longrightarrow> int (length xs) < 2 ^ 63 \<Longrightarrow> outcomes (random_choice xs) = Inr ` set xs"
  by (simp add: random_choice_def outcomes_uniform)

lemma random_sample_overflow:
  "2 ^ 63 \<le> int (length xs) \<Longrightarrow> random_sample xs k = raise_rand OverflowError"
  by (simp add: random_sample_def)

lemma sampled_no_overflow:
  assumes "Inr idxs \<in> outcomes (random_sample xs k)"
  shows "int (length xs) < 2 ^ 63"
proof (rule ccontr)
  assume "\<not> int (length xs) < 2 ^ 63"
  then have "random_sample xs k = raise_rand OverflowError"
    by (simp add: random_sample_overflow)
  then show False
    using assms by (simp add: outcomes_def raise_rand_def)
qed

lemma sampled_index_in_range:
  assumes "Inr idxs \<in> outcomes (random_sample [0..<n] (min n k))"
  shows "set idxs \<subseteq> {0..<n} \<and> length idxs = min n k"
  using assms sampled_no_overflow [OF assms]
    outcomes_random_sample [of "[0..<n]" "min n k" idxs] by simp

lemma similar_bids_subset:
  assumes "set idxs \<subseteq> {0..<length all_bids}"
  shows "set (similar_bids p u all_bids idxs) \<subseteq> set all_bids"
  using assms by (auto simp: similar_bids_def)

section \<open>Facts about the small session\<close>

lemma AllBidsList_ex: "AllBidsList ex_domain = [ex_low, ex_mid, ex_high]"
  by (simp add: AllBidsList_def ex_domain_def ex_low_def ex_mid_def ex_high_def)

lemma ex_started_fields:
  "profile ex_started = Some ex_profile"
  "progress ex_started = Some (\<lambda>t_ms. t_ms / 8192)"
  "me ex_started = Some ''franken_1''"
  "last_received_bid ex_started = None"
  "opponent_model ex_started = None"
  "om_objects ex_started = []"
  by (simp_all add: ex_started_def notifyChange_def init_agent_def ex_settings_def)

lemma ex_offered_fields:
  "profile (ex_offered b) = Some ex_profile"
  "progress (ex_offered b) = Some (\<lambda>t_ms. t_ms / 8192)"
  "me (ex_offered b) = Some ''franken_1''"
  "last_received_bid (ex_offered b) = Some b"
  "opponent_model (ex_offered b) = Some 0"
  "length (om_objects (ex_offered b)) = 1"
  by (simp_all add: ex_offered_def notifyChange_def init_agent_def ex_settings_def
      ex_opponent_def opponent_action_def)

lemma ex_utility_values:
  "getUtility ex_profile ex_low = 1"
  "getUtility ex_profile ex_mid = 1 / 2"
  "getUtility ex_profile ex_high = 1 / 10"
  by (simp_all add: ex_profile_def ex_utility_def ex_low_def ex_mid_def ex_high_def)

section \<open>The acceptance decision\<close>

text \<open>
  C1. Once the session is set up (the profile and the progress object are there), the
  acceptance decision returns false when the last received opponent bid is absent, for
  every upcoming bid and every progress; otherwise it returns true exactly when the own
  utility of the opponent's bid is strictly greater than that of the upcoming bid, or
  progress is strictly greater than the threshold \<open>T\<close>. Progress equal to \<open>T\<close> does not
  by itself cause acceptance: the decision is then the utility comparison alone.
\<close>

theorem accept_decision:
  assumes "profile st = Some p" and "progress st = Some pg"
  shows "accept st t_ms my_upcoming_bid None T = Inr False
       \<and> accept st t_ms my_upcoming_bid (Some ob) T =
           Inr (getUtility p my_upcoming_bid < getUtility p ob \<or> T < pg t_ms)
       \<and> (pg t_ms = T \<longrightarrow>
           accept st t_ms my_upcoming_bid (Some ob) T =
             Inr (getUtility p my_upcoming_bid < getUtility p ob))"
  using assms by (simp add: accept_def)

theorem accept_decision_witness:
  "profile (ex_offered ex_mid) = Some ex_profile
   \<and> progress (ex_offered ex_mid) = Some (\<lambda>t_ms. t_ms / 8192)
   \<and> accept (ex_offered ex_mid) 7680 ex_low None (15 / 16) = Inr False
   \<and> accept (ex_offered ex_mid) 7680 ex_low (Some ex_mid) (15 / 16) = Inr False
   \<and> accept (ex_offered ex_mid) 7680 ex_high (Some ex_mid) (15 / 16) = Inr True
   \<and> accept (ex_offered ex_mid) 7800 ex_low (Some ex_mid) (15 / 16) = Inr True"
  using accept_decision [of "ex_offered ex_mid" ex_profile "\<lambda>t_ms. t_ms / 8192" 7680 ex_low "15 / 16" ex_mid]
    accept_decision [of "ex_offered ex_mid" ex_profile "\<lambda>t_ms. t_ms / 8192" 7680 ex_high "15 / 16" ex_mid]
    accept_decision [of "ex_offered ex_mid" ex_profile "\<lambda>t_ms. t_ms / 8192" 7800 ex_low "15 / 16" ex_mid]
  by (simp add: ex_offered_fields ex_utility_values)

section \<open>Candidate search\<close>

lemma find_bid_unfold:
  assumes "profile st = Some p" and "last_received_bid st = Some lb"
  shows "find_bid st =
     bind_rand (random_sample [0..<length (AllBidsList (getDomain p))]
                  (min (length (AllBidsList (getDomain p))) 500))
       (\<lambda>idxs. if similar_bids p (getUtility p lb) (AllBidsList (getDomain p)) idxs = []
               then random_choice (AllBidsList (getDomain p))
               else random_choice (similar_bids p (getUtility p lb) (AllBidsList (getDomain p)) idxs))"
  using assms by (simp add: find_bid_def Let_def)

lemma similar_bids_filter:
  "similar_bids p u all_bids =
     (\<lambda>idxs. filter (\<lambda>b. decimal_sub u Decimal_0_9 < getUtility p b) (map (\<lambda>i. all_bids ! i) idxs))"
  by (rule ext) (simp add: similar_bids_def)

lemma bind_rand_raise: "bind_rand (raise_rand e) f = raise_rand e"
  by (simp add: bind_rand_def raise_rand_def)

lemma length_AllBidsList:
  "length (AllBidsList d) = foldr (*) (map (\<lambda>iv. length (snd iv)) d) 1"
  by (simp add: AllBidsList_def length_product_lists comp_def)

text \<open>
  From \<open>2^63\<close> bids on, the search fails in \<open>random.sample\<close>: \<open>len(range(num_bids))\<close>
  does not fit a machine index.
\<close>

lemma find_bid_overflow:
  assumes "profile st = Some p" and "last_received_bid st = Some lb"
    and "2 ^ 63 \<le> int (length (AllBidsList (getDomain p)))"
  shows "find_bid st = raise_rand OverflowError"
  unfolding find_bid_unfold [OF assms(1,2)]
  using assms(3) by (simp add: random_sample_overflow bind_rand_raise)

text \<open>
  Below \<open>2^63\<close> bids and with an opponent bid received, the search draws \<open>min(n, 500)\<close>
  indices from the \<open>n\<close> bids of the bid space: the possible samples are exactly the lists
  of that many distinct indices below \<open>n\<close>, each equally likely. It keeps exactly the
  sampled bids whose own utility strictly exceeds the threshold, the Decimal difference of
  the own utility of the last received bid and \<open>Decimal(0.9)\<close>. When the kept list is
  non-empty the result is a uniformly random position of it.
\<close>

lemma find_bid_sample_filter_choice:
  assumes "profile st = Some p" and "last_received_bid st = Some lb"
    and "all_bids = AllBidsList (getDomain p)" and "n = length all_bids" and "k = min n 500"
    and "threshold = decimal_sub (getUtility p lb) Decimal_0_9"
    and "int n < 2 ^ 63"
  shows
    "find_bid st =
       bind_rand (random_sample [0..<n] k)
         (\<lambda>idxs. if filter (\<lambda>b. threshold < getUtility p b) (map (\<lambda>i. all_bids ! i) idxs) = []
                 then random_choice all_bids
                 else random_choice
                        (filter (\<lambda>b. threshold < getUtility p b) (map (\<lambda>i. all_bids ! i) idxs)))
     \<and> (\<forall>idxs. Inr idxs \<in> outcomes (random_sample [0..<n] k)
                 \<longleftrightarrow> length idxs = k \<and> distinct idxs \<and> set idxs \<subseteq> {0..<n})
     \<and> (\<forall>idxs. length idxs = k \<and> distinct idxs \<and> set idxs \<subseteq> {0..<n}
                 \<longrightarrow> prob (random_sample [0..<n] k) (Inr idxs)
                      = 1 / of_nat (length (selections [0..<n] k)))
     \<and> (\<forall>idxs b. length idxs = k
                   \<and> filter (\<lambda>b. threshold < getUtility p b) (map (\<lambda>i. all_bids ! i) idxs) \<noteq> []
                 \<longrightarrow> prob (random_choice
                             (filter (\<lambda>b. threshold < getUtility p b) (map (\<lambda>i. all_bids ! i) idxs)))
                           (Inr b)
                      = of_nat (count_list
                                  (filter (\<lambda>b. threshold < getUtility p b)
                                          (map (\<lambda>i. all_bids ! i) idxs)) b)
                        / of_nat (length
                                    (filter (\<lambda>b. threshold < getUtility p b)
                                            (map (\<lambda>i. all_bids ! i) idxs))))"
proof -
  have k: "k \<le> length [0..<n]" using assms(5) by simp
  have n: "int (length [0..<n]) < 2 ^ 63" using assms(7) by simp
  have a: "Inr idxs \<in> outcomes (random_sample [0..<n] k)
             \<longleftrightarrow> length idxs = k \<and> distinct idxs \<and> set idxs \<subseteq> {0..<n}" for idxs
    using outcomes_random_sample [OF distinct_upt k n, of idxs] by simp
  have b: "prob (random_sample [0..<n] k) (Inr idxs) = 1 / of_nat (length (selections [0..<n] k))"
    if "length idxs = k \<and> distinct idxs \<and> set idxs \<subseteq> {0..<n}" for idxs
    using prob_random_sample [OF distinct_upt k n, of idxs] that by simp
  have c: "prob (random_choice (filter P (map f idxs))) (Inr b)
             = of_nat (count_list (filter P (map f idxs)) b) / of_nat (length (filter P (map f idxs)))"
    if "length idxs = k \<and> filter P (map f idxs) \<noteq> []"
    for idxs b and P :: "bid \<Rightarrow> bool" and f :: "nat \<Rightarrow> bid"
  proof -
    have "length (filter P (map f idxs)) \<le> length (map f idxs)"
      by (rule length_filter_le)
    also have "\<dots> \<le> 500" using that assms(5) by simp
    finally have "int (length (filter P (map f idxs))) < 2 ^ 63" by simp
    then show ?thesis
      using that by (simp add: random_choice_def prob_uniform)
  qed
  have d: "find_bid st =
       bind_rand (random_sample [0..<n] k)
         (\<lambda>idxs. if filter (\<lambda>b. threshold < getUtility p b) (map (\<lambda>i. all_bids ! i) idxs) = []
                 then random_choice all_bids
                 else random_choice
                        (filter (\<lambda>b. threshold < getUtility p b) (map (\<lambda>i. all_bids ! i) idxs)))"
    unfolding assms(3-6)
    by (rule find_bid_unfold [OF assms(1,2), unfolded similar_bids_filter])
  show ?thesis
    using a b c d by blast
qed

text \<open>
  C2. The claim is that, with an opponent bid received, the search keeps exactly the
  sampled bids whose own utility strictly exceeds the own utility of that bid minus 0.9.
  Line 252 writes the margin as \<open>Decimal(0.9)\<close>, the expansion of a double, in otherwise
  exact Decimal arithmetic. After an opponent offer worth 1 the three bids are all
  sampled; the bid worth exactly 0.1 does not exceed \<open>1 - 0.9\<close>, yet the search keeps
  it and returns it with probability 1/3.
\<close>

theorem find_bid_keeps_boundary_bid:
  "last_received_bid (ex_offered ex_low) = Some ex_low
   \<and> getUtility ex_profile ex_low = 1
   \<and> getUtility ex_profile ex_high = 1 / 10
   \<and> \<not> (getUtility ex_profile ex_low - 9 / 10 < getUtility ex_profile ex_high)
   \<and> decimal_sub (getUtility ex_profile ex_low) Decimal_0_9 < getUtility ex_profile ex_high
   \<and> prob (find_bid (ex_offered ex_low)) (Inr ex_high) = 1 / 3"
proof -
  have thr: "decimal_sub 1 Decimal_0_9 < 1 / 10"
    by code_simp
  have p: "prob (find_bid (ex_offered ex_low)) (Inr ex_high) = 1 / 3"
    by code_simp
  show ?thesis
    using thr p by (simp add: ex_offered_fields ex_utility_values)
qed

text \<open>
  C3. The claim is that Candidate Search does not fail when no opponent bid has been
  received. The code asks for the utility of the last received bid on its first line,
  whatever that bid is: with no bid received the search raises AttributeError, for every
  state of the agent.
\<close>

theorem find_bid_without_opponent_bid:
  "find_bid (st\<lparr>last_received_bid := None\<rparr>) = raise_rand AttributeError"
  by (simp add: find_bid_def split: option.split)

lemma find_bid_returns_domain_bid:
  assumes "profile st = Some p" and "last_received_bid st = Some lb"
    and "AllBidsList (getDomain p) \<noteq> []"
    and "int (length (AllBidsList (getDomain p))) < 2 ^ 63"
  shows "mass (find_bid st) = 1 \<and> outcomes (find_bid st) \<subseteq> Inr ` set (AllBidsList (getDomain p))"
proof -
  let ?all = "AllBidsList (getDomain p)"
  let ?n = "length ?all"
  let ?f = "\<lambda>idxs. if similar_bids p (getUtility p lb) ?all idxs = []
               then random_choice ?all
               else random_choice (similar_bids p (getUtility p lb) ?all idxs)"
  have fb: "find_bid st = bind_rand (random_sample [0..<?n] (min ?n 500)) ?f"
    by (rule find_bid_unfold [OF assms(1,2)])
  have sub: "set (similar_bids p (getUtility p lb) ?all idxs) \<subseteq> set ?all"
    if "Inr idxs \<in> outcomes (random_sample [0..<?n] (min ?n 500))" for idxs
    using similar_bids_subset [of idxs ?all] sampled_index_in_range [OF that] by simp
  have len: "int (length (similar_bids p (getUtility p lb) ?all idxs)) < 2 ^ 63"
    if "Inr idxs \<in> outcomes (random_sample [0..<?n] (min ?n 500))" for idxs
  proof -
    have "length (similar_bids p (getUtility p lb) ?all idxs) \<le> length (map (\<lambda>i. ?all ! i) idxs)"
      unfolding similar_bids_def by (rule length_filter_le)
    also have "\<dots> \<le> 500" using sampled_index_in_range [OF that] by simp
    finally show ?thesis by simp
  qed
  have m: "mass (?f idxs) = 1"
    if "Inr idxs \<in> outcomes (random_sample [0..<?n] (min ?n 500))" for idxs
    using assms(3,4) len [OF that] by (simp add: mass_random_choice)
  have o: "outcomes (?f idxs) \<subseteq> Inr ` set ?all"
    if "Inr idxs \<in> outcomes (random_sample [0..<?n] (min ?n 500))" for idxs
    using sub [OF that] len [OF that] assms(3,4) by (auto simp: outcomes_random_choice)
  have noerr: "Inl e \<notin> outcomes (random_sample [0..<?n] (min ?n 500))" for e
    using assms(4) by (auto simp: random_sample_def outcomes_uniform)
  have "mass (find_bid st) = 1"
    unfolding fb using mass_bind [of "random_sample [0..<?n] (min ?n 500)" ?f] m assms(4)
    by (simp add: mass_random_sample)
  moreover have "outcomes (find_bid st) \<subseteq> Inr ` set ?all"
    unfolding fb outcomes_bind using o noerr by blast
  ultimately show ?thesis by simp
qed

text \<open>
  C4. The claim is that Candidate Search returns a bid of the domain, never an error,
  for every opponent-bid history and every non-empty domain. With the empty history, in
  the session set up over the three-bid domain, the search raises AttributeError.
\<close>

theorem find_bid_first_turn_fails:
  "AllBidsList (getDomain ex_profile) = [ex_low, ex_mid, ex_high]
   \<and> profile ex_started = Some ex_profile
   \<and> last_received_bid ex_started = None
   \<and> find_bid ex_started = [(Inl AttributeError, 1)]"
  by (simp add: ex_started_fields find_bid_def raise_rand_def)
    (simp add: ex_profile_def AllBidsList_ex)

text \<open>
  C6. With an opponent bid worth 0.5 and the margin 0.9 the threshold of the filter is
  \<open>-0.4\<close>; the threshold the code computes, with \<open>Decimal(0.9)\<close> for the margin, lies
  within \<open>10^-16\<close> below it. Own utilities being in \<open>[0,1]\<close>, every sampled bid passes
  the filter, and Candidate Search is an unfiltered uniformly random choice from the
  sampled bids.
\<close>

theorem default_margin_passes_all:
  assumes "profile st = Some p" and "last_received_bid st = Some lb"
    and "getUtility p lb = 1 / 2"
    and "\<forall>b \<in> set (AllBidsList (getDomain p)). 0 \<le> getUtility p b \<and> getUtility p b \<le> 1"
    and "all_bids = AllBidsList (getDomain p)" and "n = length all_bids"
  shows "decimal_sub (getUtility p lb) (9 / 10) = - (4 / 10)
       \<and> decimal_sub (getUtility p lb) Decimal_0_9 \<le> - (4 / 10)
       \<and> - (4 / 10) - 1 / 10 ^ 16 < decimal_sub (getUtility p lb) Decimal_0_9
       \<and> (\<forall>idxs. Inr idxs \<in> outcomes (random_sample [0..<n] (min n 500))
                 \<longrightarrow> similar_bids p (getUtility p lb) all_bids idxs
                      = map (\<lambda>i. all_bids ! i) idxs)
       \<and> find_bid st =
           bind_rand (random_sample [0..<n] (min n 500))
             (\<lambda>idxs. random_choice (map (\<lambda>i. all_bids ! i) idxs))"
proof -
  have nominal: "decimal_sub (1 / 2) (9 / 10) = - (4 / 10)"
    by code_simp
  have thr: "decimal_sub (1 / 2) Decimal_0_9 = - (4000000000000000222044604925 / 10 ^ 28)"
    by code_simp
  have below: "- (4000000000000000222044604925 / 10 ^ 28) \<le> - (4 / 10 :: rat)"
    and near: "- (4 / 10) - 1 / 10 ^ 16 < - (4000000000000000222044604925 / 10 ^ 28 :: rat)"
    by simp_all
  let ?all = "AllBidsList (getDomain p)"
  let ?n = "length ?all"
  let ?f = "\<lambda>idxs. if similar_bids p (getUtility p lb) ?all idxs = []
               then random_choice ?all
               else random_choice (similar_bids p (getUtility p lb) ?all idxs)"
  have fb: "find_bid st = bind_rand (random_sample [0..<?n] (min ?n 500)) ?f"
    by (rule find_bid_unfold [OF assms(1,2)])
  have all_kept: "similar_bids p (getUtility p lb) ?all idxs = map (\<lambda>i. ?all ! i) idxs"
    if s: "Inr idxs \<in> outcomes (random_sample [0..<?n] (min ?n 500))" for idxs
  proof -
    have rng: "set idxs \<subseteq> {0..<?n}"
      using sampled_index_in_range [OF s] by simp
    have "decimal_sub (getUtility p lb) Decimal_0_9 < getUtility p (?all ! i)" if "i \<in> set idxs" for i
    proof -
      have "?all ! i \<in> set ?all" using rng that by auto
      then have "0 \<le> getUtility p (?all ! i)" using assms(4) by blast
      then show ?thesis unfolding assms(3) thr by simp
    qed
    then show ?thesis
      by (simp add: similar_bids_def)
  qed
  have eq: "?f idxs = random_choice (map (\<lambda>i. ?all ! i) idxs)"
    if s: "Inr idxs \<in> outcomes (random_sample [0..<?n] (min ?n 500))" for idxs
  proof (cases "idxs = []")
    case True
    have "length idxs = min ?n 500"
      using sampled_index_in_range [OF s] by simp
    then have "min ?n 500 = 0" using True by simp
    then have "?n = 0" by (simp add: min_def split: if_splits)
    then have "?all = []" by simp
    then show ?thesis using True by (simp add: similar_bids_def)
  next
    case False
    then show ?thesis by (simp add: all_kept [OF s])
  qed
  have "find_bid st =
      bind_rand (random_sample [0..<?n] (min ?n 500)) (\<lambda>idxs. random_choice (map (\<lambda>i. ?all ! i) idxs))"
    unfolding fb by (rule bind_rand_cong) (rule eq)
  then show ?thesis
    unfolding assms(5,6) assms(3) nominal thr
    using all_kept [unfolded assms(3)] below near by blast
qed

theorem default_margin_passes_all_witness:
  "profile (ex_offered ex_mid) = Some ex_profile
   \<and> last_received_bid (ex_offered ex_mid) = Some ex_mid
   \<and> getUtility ex_profile ex_mid = 1 / 2
   \<and> 0 \<le> getUtility ex_profile ex_low \<and> getUtility ex_profile ex_low \<le> 1
   \<and> 0 \<le> getUtility ex_profile ex_mid \<and> getUtility ex_profile ex_mid \<le> 1
   \<and> 0 \<le> getUtility ex_profile ex_high \<and> getUtility ex_profile ex_high \<le> 1
   \<and> [ex_low, ex_mid, ex_high] = AllBidsList (getDomain ex_profile)
   \<and> 3 = length [ex_low, ex_mid, ex_high]
   \<and> decimal_sub (getUtility ex_profile ex_mid) (9 / 10) = - (4 / 10)
   \<and> decimal_sub (getUtility ex_profile ex_mid) Decimal_0_9 \<le> - (4 / 10)
   \<and> Inr [2, 0, 1] \<in> outcomes (random_sample [0..<3] (min 3 500))
   \<and> similar_bids ex_profile (getUtility ex_profile ex_mid) [ex_low, ex_mid, ex_high] [2, 0, 1]
       = map (\<lambda>i. [ex_low, ex_mid, ex_high] ! i) [2, 0, 1]
   \<and> find_bid (ex_offered ex_mid) =
        bind_rand (random_sample [0..<3] (min 3 500))
          (\<lambda>idxs. random_choice (map (\<lambda>i. [ex_low, ex_mid, ex_high] ! i) idxs))"
proof -
  have h: "profile (ex_offered ex_mid) = Some ex_profile"
    "last_received_bid (ex_offered ex_mid) = Some ex_mid"
    "getUtility ex_profile ex_mid = 1 / 2"
    by (simp_all add: ex_offered_fields ex_utility_values)
  have all: "[ex_low, ex_mid, ex_high] = AllBidsList (getDomain ex_profile)"
    by (simp add: ex_profile_def AllBidsList_ex)
  have u: "0 \<le> getUtility ex_profile ex_low \<and> getUtility ex_profile ex_low \<le> 1"
    "0 \<le> getUtility ex_profile ex_mid \<and> getUtility ex_profile ex_mid \<le> 1"
    "0 \<le> getUtility ex_profile ex_high \<and> getUtility ex_profile ex_high \<le> 1"
    by (simp_all add: ex_utility_values)
  have range01: "\<forall>b \<in> set (AllBidsList (getDomain ex_profile)).
      0 \<le> getUtility ex_profile b \<and> getUtility ex_profile b \<le> 1"
    unfolding all [symmetric] using u by simp
  have n: "3 = length [ex_low, ex_mid, ex_high]"
    by simp
  have sampled: "Inr [2, 0, 1] \<in> outcomes (random_sample [0..<3] (min 3 500))"
    by code_simp
  note th = default_margin_passes_all [OF h range01 all n]
  have kept: "similar_bids ex_profile (getUtility ex_profile ex_mid) [ex_low, ex_mid, ex_high] [2, 0, 1]
       = map (\<lambda>i. [ex_low, ex_mid, ex_high] ! i) [2, 0, 1]"
    using th [THEN conjunct2, THEN conjunct2, THEN conjunct2, THEN conjunct1, THEN spec, THEN mp,
        OF sampled] .
  show ?thesis
    using th h u all n sampled kept by blast
qed

text \<open>
  C8. Candidate Search never inspects the opponent model: whatever the reference held in
  \<open>opponent_model\<close> and whatever OpponentModel objects exist, with the other fields the
  same the search yields the same distribution of results.
\<close>

theorem find_bid_ignores_opponent_model:
  "find_bid (st\<lparr>opponent_model := r, om_objects := objs\<rparr>) = find_bid st"
  by (simp add: find_bid_def cong: option.case_cong)

section \<open>The scoring function\<close>




section \<open>The turn\<close>

lemma my_turn_with_opponent_bid:
  assumes "profile st = Some p" and "progress st = Some pg" and "last_received_bid st = Some lb"
  shows "my_turn t_ms st =
     bind_rand (find_bid st)
       (\<lambda>bid. return_rand
          (if getUtility p bid < getUtility p lb \<or> T_default < pg t_ms
           then Accept (me st) (Some lb) else Offer (me st) bid))"
  using assms by (simp add: my_turn_def accept_def cong: if_cong)

text \<open>
  C9. The claim is that every "my turn" event makes the agent emit exactly one action. On
  a turn taken before any opponent bid has arrived, \<open>my_turn\<close> raises AttributeError in
  its call of \<open>find_bid\<close> and sends no action.
\<close>

theorem my_turn_without_opponent_bid:
  "my_turn t_ms (st\<lparr>last_received_bid := None\<rparr>) = raise_rand AttributeError"
  by (simp add: my_turn_def find_bid_def bind_rand_def raise_rand_def split: option.split)

section \<open>Messages about actions\<close>

text \<open>
  C10. An ActionDone message whose action was performed by the agent itself, or is not
  an Offer, leaves the last received bid, the reference to the opponent model and the
  OpponentModel objects unchanged.
\<close>

theorem action_done_frame:
  assumes "getActor a = me st \<or> \<not> is_Offer a"
  shows "last_received_bid (fst (notifyChange t_ms (ActionDone a) st)) = last_received_bid st
       \<and> opponent_model (fst (notifyChange t_ms (ActionDone a) st)) = opponent_model st
       \<and> om_objects (fst (notifyChange t_ms (ActionDone a) st)) = om_objects st"
  using assms by (cases a) (simp_all add: notifyChange_def opponent_action_def)
theorem action_done_frame_witness:
  "getActor (Offer (Some ''franken_1'') ex_high) = me (ex_offered ex_mid)
   \<and> last_received_bid
        (fst (notifyChange 200 (ActionDone (Offer (Some ''franken_1'') ex_high)) (ex_offered ex_mid)))
      = Some ex_mid
   \<and> is_Offer (Accept ex_opponent (Some ex_high)) = False
   \<and> last_received_bid
        (fst (notifyChange 200 (ActionDone (Accept ex_opponent (Some ex_high))) (ex_offered ex_mid)))
      = Some ex_mid
   \<and> opponent_model
        (fst (notifyChange 200 (ActionDone (Accept ex_opponent (Some ex_high))) (ex_offered ex_mid)))
      = Some 0"
  using action_done_frame [of "Offer (Some ''franken_1'') ex_high" "ex_offered ex_mid" 200]
    action_done_frame [of "Accept ex_opponent (Some ex_high)" "ex_offered ex_mid" 200]
  by (simp add: ex_offered_fields)

section \<open>The opponent model over a session\<close>

lemma notifyChange_model:
  assumes "model_inv st"
  shows "model_inv (fst (notifyChange t_ms data st))
       \<and> (opponent_model (fst (notifyChange t_ms data st)) = None
            \<longleftrightarrow> opponent_model st = None \<and> \<not> is_opponent_offer st data)"
proof (cases data)
  case (ActionDone a)
  then show ?thesis
    using assms
    by (cases a) (auto simp: notifyChange_def opponent_action_def model_inv_def)
qed (use assms in \<open>auto simp: notifyChange_def model_inv_def\<close>)

lemma run_model:
  "model_inv st \<Longrightarrow>
     model_inv (run evs st)
     \<and> (opponent_model (run evs st) = None
          \<longleftrightarrow> opponent_model st = None \<and> offers_seen evs st = 0)"
proof (induction evs arbitrary: st)
  case Nil
  then show ?case by simp
next
  case (Cons ev evs)
  obtain t_ms data where ev: "ev = (t_ms, data)" by (cases ev)
  let ?st = "fst (notifyChange t_ms data st)"
  have step: "model_inv ?st"
    "opponent_model ?st = None \<longleftrightarrow> opponent_model st = None \<and> \<not> is_opponent_offer st data"
    using notifyChange_model [OF Cons.prems, of t_ms data] by simp_all
  show ?case
    using Cons.IH [OF step(1)] step(2) ev by auto
qed

text \<open>
  C7. Over any sequence of messages received from the initial state, at most one
  OpponentModel object is ever constructed. As long as no offer of another party has been
  seen, the reference is None and no object exists; once one has been seen, the reference
  is the first object constructed and stays it, whatever follows.
\<close>

theorem opponent_model_created_once:
  "length (om_objects (run evs init_agent)) \<le> 1
   \<and> (offers_seen evs init_agent = 0 \<longrightarrow>
        opponent_model (run evs init_agent) = None \<and> om_objects (run evs init_agent) = [])
   \<and> (0 < offers_seen evs init_agent \<longrightarrow>
        opponent_model (run evs init_agent) = Some 0
        \<and> length (om_objects (run evs init_agent)) = 1)"
proof -
  have "model_inv init_agent"
    by (simp add: model_inv_def init_agent_def)
  from run_model [OF this, of evs] show ?thesis
    by (auto simp: model_inv_def init_agent_def)
qed

theorem opponent_model_created_once_witness:
  "offers_seen [(0, Settings ex_settings), (50, YourTurn)] init_agent = 0
   \<and> opponent_model (run [(0, Settings ex_settings), (50, YourTurn)] init_agent) = None
   \<and> om_objects (run [(0, Settings ex_settings), (50, YourTurn)] init_agent) = []
   \<and> 0 < offers_seen [(0, Settings ex_settings), (100, ActionDone (Offer ex_opponent ex_low)),
                       (200, YourTurn), (300, ActionDone (Offer ex_opponent ex_mid))] init_agent
   \<and> opponent_model (run [(0, Settings ex_settings), (100, ActionDone (Offer ex_opponent ex_low)),
                       (200, YourTurn), (300, ActionDone (Offer ex_opponent ex_mid))] init_agent)
       = Some 0
   \<and> length (om_objects (run [(0, Settings ex_settings), (100, ActionDone (Offer ex_opponent ex_low)),
                       (200, YourTurn), (300, ActionDone (Offer ex_opponent ex_mid))] init_agent))
       = 1"
proof -
  have a: "offers_seen [(0, Settings ex_settings), (50, YourTurn)] init_agent = 0"
    by (simp add: notifyChange_def)
  have b: "0 < offers_seen [(0, Settings ex_settings), (100, ActionDone (Offer ex_opponent ex_low)),
                       (200, YourTurn), (300, ActionDone (Offer ex_opponent ex_mid))] init_agent"
    by (simp add: notifyChange_def init_agent_def ex_settings_def ex_opponent_def)
  show ?thesis
    using opponent_model_created_once [of "[(0, Settings ex_settings), (50, YourTurn)]"]
      opponent_model_created_once [of "[(0, Settings ex_settings),
          (100, ActionDone (Offer ex_opponent ex_low)),
          (200, YourTurn), (300, ActionDone (Offer ex_opponent ex_mid))]"]
      a b
    by blast
qed

end
